theory Spec2Isabelle
  imports Complex_Main
begin

section \<open>Entities of the game (entities.py)\<close>

text \<open>
  The classes \<open>Entity\<close>, \<open>CombatEntity\<close>, \<open>Player\<close> and \<open>Mob\<close> are records that extend
  one another as the classes do. The class attribute \<open>handler\<close>, through which every
  entity reaches the world, the player, the mob list, the message box and the game state,
  is the record \<open>handler\<close>: every method takes it and returns it updated.
\<close>

text \<open>
  Modelled from the spec: the module \<open>data\<close> (constants \<open>HOLD\<close>, \<open>CHASE\<close>, \<open>RUN\<close>,
  \<open>DEAD\<close>) is not among the sources. The spec gives the four mob states, with \<open>HOLD\<close>,
  \<open>CHASE\<close>, \<open>RUN\<close> the indices 0, 1, 2 of the transition table and \<open>DEAD\<close> outside it.
\<close>

datatype mob_state = HOLD | CHASE | RUN | DEAD

text \<open>
  Modelled from the spec: \<open>handler.game_state\<close> is a flag that the source only compares
  with \<open>data.DEAD\<close>; the spec gives it the two values alive and dead.
\<close>

datatype game_state = GAME_ALIVE | GAME_DEAD

record entity =
  pos_x :: int
  pos_y :: int
  name :: string
  char :: string
  colour :: string
  solid :: bool

record combat_entity = entity +
  hp :: int
  max_hp :: int
  atk :: int

record mob = combat_entity +
  morale :: int
  state :: mob_state

text \<open>
  Objects are shared by reference: the mob list holds the very objects that methods
  mutate, and \<open>list.remove(self)\<close> compares by identity. So mobs live in a store at
  addresses, and the mob list holds addresses. The player is a singleton.
\<close>

datatype combat_ref = PlayerRef | MobRef nat

text \<open>The argument of \<open>deal_damage\<close>: an object with an attribute \<open>hp\<close>, or one without.\<close>

datatype target = HasHp combat_ref | NoHp

datatype error = ValueError

text \<open>
  \<open>msg_log\<close> holds the calls of \<open>message_box.add_msg\<close> in order, as (text, colour key).
  \<open>rand_src\<close> and \<open>rand_pos\<close> are the pseudo-random source of module \<open>random\<close>: the
  sequence of its raw draws and the number of draws made so far. \<open>die_calls\<close> is not a
  field of the source: it records every invocation of the method \<open>die\<close>, in order, so
  that statements that count invocations can be made.
\<close>

record handler =
  player :: combat_entity
  mob_heap :: "nat \<Rightarrow> mob"
  map_mobs :: "nat list"
  game_state :: game_state
  fov_refresh :: bool
  fov_map :: "int \<Rightarrow> int \<Rightarrow> bool"
  msg_log :: "(string \<times> string) list"
  rand_src :: "nat \<Rightarrow> nat"
  rand_pos :: nat
  die_calls :: "combat_ref list"

text \<open>
  A method either returns, with the handler as it is then, or raises, with the handler as
  it was at the raise: what was assigned before an exception stays assigned.
\<close>

type_synonym 'a result = "(error \<times> handler) + ('a \<times> handler)"

definition after :: "(error \<times> handler) + handler \<Rightarrow> handler" where
  "after r = (case r of Inl (e, h) \<Rightarrow> h | Inr h \<Rightarrow> h)"

text \<open>Whether a call returned, and the handler after a call that returns a value.\<close>

definition returns :: "'e + 'b \<Rightarrow> bool" where
  "returns r = (case r of Inl e \<Rightarrow> False | Inr v \<Rightarrow> True)"

definition after_val :: "'a result \<Rightarrow> handler" where
  "after_val r = (case r of Inl (e, h) \<Rightarrow> h | Inr (v, h) \<Rightarrow> h)"

text \<open>The value a call returned, if it returned.\<close>

definition value_of :: "'a result \<Rightarrow> 'a option" where
  "value_of r = (case r of Inl e \<Rightarrow> None | Inr (v, h) \<Rightarrow> Some v)"

subsection \<open>Constructors\<close>

definition Entity :: "int \<Rightarrow> int \<Rightarrow> string \<Rightarrow> string \<Rightarrow> string \<Rightarrow> bool \<Rightarrow> entity" where
  "Entity x y nm ch col sol =
     \<lparr>pos_x = x, pos_y = y, name = nm, char = ch, colour = col, solid = sol\<rparr>"

definition CombatEntity ::
  "int \<Rightarrow> int \<Rightarrow> string \<Rightarrow> string \<Rightarrow> string \<Rightarrow> int \<Rightarrow> int \<Rightarrow> combat_entity" where
  "CombatEntity x y nm ch col h a =
     \<lparr>pos_x = x, pos_y = y, name = nm, char = ch, colour = col, solid = True,
      hp = h, max_hp = h, atk = a\<rparr>"

definition Player :: "int \<Rightarrow> int \<Rightarrow> string \<Rightarrow> combat_entity" where
  "Player x y nm = CombatEntity x y nm ''@'' ''player'' 300 30"

definition Mob ::
  "int \<Rightarrow> int \<Rightarrow> string \<Rightarrow> string \<Rightarrow> int \<Rightarrow> int \<Rightarrow> int \<Rightarrow> mob_state \<Rightarrow> mob" where
  "Mob x y nm ch h a mor st =
     \<lparr>pos_x = x, pos_y = y, name = nm, char = ch, colour = ''mob'', solid = True,
      hp = h, max_hp = h, atk = a, morale = mor, state = st\<rparr>"

definition Spider :: "int \<Rightarrow> int \<Rightarrow> mob" where
  "Spider x y = Mob x y ''Spider'' ''s'' 200 15 50 HOLD"

definition Skeleton :: "int \<Rightarrow> int \<Rightarrow> mob" where
  "Skeleton x y = Mob x y ''Skeleton'' ''S'' 235 20 100 HOLD"

subsection \<open>Attribute access through a reference\<close>

definition hp_of :: "combat_ref \<Rightarrow> handler \<Rightarrow> int" where
  "hp_of r h = (case r of PlayerRef \<Rightarrow> hp (player h) | MobRef a \<Rightarrow> hp (mob_heap h a))"

definition max_hp_of :: "combat_ref \<Rightarrow> handler \<Rightarrow> int" where
  "max_hp_of r h =
     (case r of PlayerRef \<Rightarrow> max_hp (player h) | MobRef a \<Rightarrow> max_hp (mob_heap h a))"

definition atk_of :: "combat_ref \<Rightarrow> handler \<Rightarrow> int" where
  "atk_of r h = (case r of PlayerRef \<Rightarrow> atk (player h) | MobRef a \<Rightarrow> atk (mob_heap h a))"

definition x_of :: "combat_ref \<Rightarrow> handler \<Rightarrow> int" where
  "x_of r h = (case r of PlayerRef \<Rightarrow> pos_x (player h) | MobRef a \<Rightarrow> pos_x (mob_heap h a))"

definition y_of :: "combat_ref \<Rightarrow> handler \<Rightarrow> int" where
  "y_of r h = (case r of PlayerRef \<Rightarrow> pos_y (player h) | MobRef a \<Rightarrow> pos_y (mob_heap h a))"

definition set_hp :: "combat_ref \<Rightarrow> int \<Rightarrow> handler \<Rightarrow> handler" where
  "set_hp r v h =
     (case r of
        PlayerRef \<Rightarrow> h\<lparr>player := (player h)\<lparr>hp := v\<rparr>\<rparr>
      | MobRef a \<Rightarrow> h\<lparr>mob_heap := (mob_heap h)(a := (mob_heap h a)\<lparr>hp := v\<rparr>)\<rparr>)"

definition set_pos :: "combat_ref \<Rightarrow> int \<Rightarrow> int \<Rightarrow> handler \<Rightarrow> handler" where
  "set_pos r vx vy h =
     (case r of
        PlayerRef \<Rightarrow> h\<lparr>player := (player h)\<lparr>pos_x := vx, pos_y := vy\<rparr>\<rparr>
      | MobRef a \<Rightarrow>
          h\<lparr>mob_heap := (mob_heap h)(a := (mob_heap h a)\<lparr>pos_x := vx, pos_y := vy\<rparr>)\<rparr>)"

subsection \<open>Collaborators\<close>

text \<open>
  \<open>MessageBox.add_msg\<close> (gui.py) wraps the text and keeps the last lines that fit the
  box; both depend on module \<open>config\<close>, which is not among the sources, and concern the
  display only. The log keeps the call itself.
\<close>

definition add_msg :: "string \<Rightarrow> string \<Rightarrow> handler \<Rightarrow> handler" where
  "add_msg msg col h = h\<lparr>msg_log := msg_log h @ [(msg, col)]\<rparr>"

text \<open>
  \<open>random.randrange(n)\<close>: an integer of \<open>[0, n)\<close>, taken from the next raw draw, and
  \<open>ValueError\<close> on an empty range.
\<close>

definition randrange :: "int \<Rightarrow> handler \<Rightarrow> int result" where
  "randrange n h =
     (if n \<le> 0 then Inl (ValueError, h)
      else Inr (int (rand_src h (rand_pos h) mod nat n), h\<lparr>rand_pos := rand_pos h + 1\<rparr>))"

subsection \<open>Entity.move\<close>

text \<open>
  \<open>handler.world.is_solid\<close> belongs to a module that is not among the sources; it is a
  parameter \<open>is_solid\<close> of every method that asks it, and may read the whole handler
  (the tiles, and the entities standing on them).
\<close>

definition move ::
  "(handler \<Rightarrow> int \<Rightarrow> int \<Rightarrow> bool) \<Rightarrow> combat_ref \<Rightarrow> int \<Rightarrow> int \<Rightarrow> handler \<Rightarrow> handler" where
  "move is_solid r dx dy h =
     (if \<not> is_solid h (x_of r h + dx) (y_of r h + dy)
      then set_pos r (x_of r h + dx) (y_of r h + dy) h
      else h)"

subsection \<open>CombatEntity: damage and death\<close>

definition Player_die :: "handler \<Rightarrow> handler" where
  "Player_die h =
     (if game_state h \<noteq> GAME_DEAD
      then h\<lparr>game_state := GAME_DEAD, player := (player h)\<lparr>char := ''%''\<rparr>\<rparr>
      else h)"

text \<open>\<open>list.remove\<close> deletes the first occurrence and raises \<open>ValueError\<close> when there is none.\<close>

definition send_to_back :: "nat \<Rightarrow> handler \<Rightarrow> (error \<times> handler) + handler" where
  "send_to_back a h =
     (if a \<in> set (map_mobs h)
      then Inr (h\<lparr>map_mobs := a # remove1 a (map_mobs h)\<rparr>)
      else Inl (ValueError, h))"

definition Mob_die :: "nat \<Rightarrow> handler \<Rightarrow> (error \<times> handler) + handler" where
  "Mob_die a h =
     send_to_back a
       (h\<lparr>mob_heap := (mob_heap h)
            (a := (mob_heap h a)\<lparr>char := ''X'', solid := False, state := DEAD\<rparr>)\<rparr>)"

text \<open>The call \<open>self.die()\<close>: recorded, then dispatched on the class of the object.\<close>

definition die :: "combat_ref \<Rightarrow> handler \<Rightarrow> (error \<times> handler) + handler" where
  "die r h =
     (let h' = h\<lparr>die_calls := die_calls h @ [r]\<rparr>
      in case r of PlayerRef \<Rightarrow> Inr (Player_die h') | MobRef a \<Rightarrow> Mob_die a h')"

definition take_damage :: "combat_ref \<Rightarrow> int \<Rightarrow> handler \<Rightarrow> (error \<times> handler) + handler" where
  "take_damage r damage h =
     (if hp_of r h - damage \<le> 0
      then die r (set_hp r 0 h)
      else Inr (set_hp r (hp_of r h - damage) h))"

text \<open>The result \<open>None\<close> is what Python returns when the function ends without \<open>return\<close>.\<close>

definition deal_damage :: "combat_ref \<Rightarrow> target \<Rightarrow> handler \<Rightarrow> int option result" where
  "deal_damage r tgt h =
     (case tgt of
        NoHp \<Rightarrow> Inr (None, h)
      | HasHp t \<Rightarrow>
          (case randrange (atk_of r h + 1) h of
             Inl e \<Rightarrow> Inl e
           | Inr (dmg, h1) \<Rightarrow>
               (case take_damage t dmg h1 of
                  Inl e \<Rightarrow> Inl e
                | Inr h2 \<Rightarrow> Inr (Some dmg, h2))))"

subsection \<open>Message texts\<close>

text \<open>The conversion \<open>%d\<close> of the message formats.\<close>

function str_nat :: "nat \<Rightarrow> string" where
  "str_nat n =
     (if n < 10 then [''0123456789'' ! n]
      else str_nat (n div 10) @ [''0123456789'' ! (n mod 10)])"
  by pat_completeness auto
termination
  by (relation "measure (\<lambda>n. n)") auto

declare str_nat.simps [simp del]

definition str_int :: "int \<Rightarrow> string" where
  "str_int i = (if i < 0 then ''-'' @ str_nat (nat (- i)) else str_nat (nat i))"

subsection \<open>Player.move_or_attack\<close>

text \<open>
  The body of the \<open>if\<close> inside the loop of \<open>move_or_attack\<close>, for the mob at address
  \<open>a\<close>. \<open>if dmg:\<close> is false for \<open>None\<close> and for 0.
\<close>

definition attack_mob :: "nat \<Rightarrow> handler \<Rightarrow> (error \<times> handler) + handler" where
  "attack_mob a h =
     (case deal_damage PlayerRef (HasHp (MobRef a)) h of
        Inl e \<Rightarrow> Inl e
      | Inr (dmg, h1) \<Rightarrow>
          (let h2 = (case dmg of
                       None \<Rightarrow> add_msg ''You missed!'' ''player_atk_text'' h1
                     | Some d \<Rightarrow>
                         if d \<noteq> 0
                         then add_msg (''You attack '' @ name (mob_heap h1 a) @ '' for '' @
                                       str_int d @ '' damage!'') ''player_atk_text'' h1
                         else add_msg ''You missed!'' ''player_atk_text'' h1)
           in Inr (if state (mob_heap h2 a) = DEAD
                   then (let h3 = add_msg (''You killed '' @ name (mob_heap h2 a) @ ''!'')
                                    ''player_kill_text'' h2
                         in h3\<lparr>mob_heap := (mob_heap h3)
                                (a := (mob_heap h3 a)
                                   \<lparr>name := name (mob_heap h3 a) @ [CHR 0x27] @ ''s remains''\<rparr>)\<rparr>)
                   else h2)))"

lemma send_to_back_length:
  "send_to_back a h = Inr h' \<Longrightarrow> length (map_mobs h') = length (map_mobs h)"
proof -
  assume r: "send_to_back a h = Inr h'"
  then have mem: "a \<in> set (map_mobs h)" and h': "h' = h\<lparr>map_mobs := a # remove1 a (map_mobs h)\<rparr>"
    by (auto simp: send_to_back_def split: if_splits)
  from mem have "0 < length (map_mobs h)"
    by (rule length_pos_if_in_set)
  with mem h' show ?thesis
    by (simp add: length_remove1)
qed

lemma die_length: "die r h = Inr h' \<Longrightarrow> length (map_mobs h') = length (map_mobs h)"
  by (cases r) (auto simp: die_def Let_def Player_die_def Mob_die_def
      dest!: send_to_back_length split: if_splits)

lemma take_damage_length:
  "take_damage r d h = Inr h' \<Longrightarrow> length (map_mobs h') = length (map_mobs h)"
  by (cases r) (auto simp: take_damage_def set_hp_def dest!: die_length split: if_splits)

lemma attack_mob_length:
  "attack_mob a h = Inr h' \<Longrightarrow> length (map_mobs h') = length (map_mobs h)"
  by (auto simp: attack_mob_def deal_damage_def randrange_def add_msg_def Let_def
      dest!: take_damage_length split: sum.splits if_splits option.splits prod.splits)

text \<open>
  The \<open>for\<close> loop over the mob list. Python's list iterator keeps an index and reads the
  list as it is at each step, so the loop sees the reordering that a death makes.
\<close>

function mobs_loop :: "int \<Rightarrow> int \<Rightarrow> nat \<Rightarrow> handler \<Rightarrow> (error \<times> handler) + handler" where
  "mobs_loop dx dy i h =
     (if i < length (map_mobs h)
      then (if pos_x (mob_heap h (map_mobs h ! i)) = pos_x (player h) + dx \<and>
               pos_y (mob_heap h (map_mobs h ! i)) = pos_y (player h) + dy \<and>
               solid (mob_heap h (map_mobs h ! i))
            then (case attack_mob (map_mobs h ! i) h of
                    Inl e \<Rightarrow> Inl e
                  | Inr h' \<Rightarrow> mobs_loop dx dy (i + 1) h')
            else mobs_loop dx dy (i + 1) h)
      else Inr h)"
  by pat_completeness auto
termination
  by (relation "measure (\<lambda>(dx, dy, i, h). length (map_mobs h) - i)")
     (auto dest!: attack_mob_length)

declare mobs_loop.simps [simp del]

text \<open>
  The loop has no \<open>break\<close>, so its \<open>else\<close> clause runs whenever the loop ends without
  an exception.
\<close>

definition move_or_attack ::
  "(handler \<Rightarrow> int \<Rightarrow> int \<Rightarrow> bool) \<Rightarrow> int \<Rightarrow> int \<Rightarrow> handler \<Rightarrow> (error \<times> handler) + handler" where
  "move_or_attack is_solid dx dy h =
     (case mobs_loop dx dy 0 h of
        Inl e \<Rightarrow> Inl e
      | Inr h1 \<Rightarrow> Inr (move is_solid PlayerRef dx dy (h1\<lparr>fov_refresh := True\<rparr>)))"

subsection \<open>Mob: the checks of the state chart\<close>

definition in_sight :: "nat \<Rightarrow> handler \<Rightarrow> bool" where
  "in_sight a h = fov_map h (pos_x (mob_heap h a)) (pos_y (mob_heap h a))"

definition not_in_sight :: "nat \<Rightarrow> handler \<Rightarrow> bool" where
  "not_in_sight a h = (\<not> in_sight a h)"

text \<open>The product \<open>0.4*self.max_hp\<close> is a float in the source; here it is the real number.\<close>

definition healthy :: "nat \<Rightarrow> handler \<Rightarrow> bool" where
  "healthy a h = (real_of_int (hp (mob_heap h a)) \<ge> 0.4 * real_of_int (max_hp (mob_heap h a)))"

definition in_sight_and_healthy :: "nat \<Rightarrow> handler \<Rightarrow> bool" where
  "in_sight_and_healthy a h = (in_sight a h \<and> healthy a h)"

definition in_sight_and_not_healthy :: "nat \<Rightarrow> handler \<Rightarrow> bool result" where
  "in_sight_and_not_healthy a h =
     (case randrange 101 h of
        Inl e \<Rightarrow> Inl e
      | Inr (roll, h1) \<Rightarrow>
          if roll > morale (mob_heap h1 a)
          then Inr (in_sight a h1 \<and> \<not> healthy a h1, h1)
          else Inr (False, h1))"

text \<open>A check that draws nothing, as a cell of the chart.\<close>

definition pure_check :: "(nat \<Rightarrow> handler \<Rightarrow> bool) \<Rightarrow> nat \<Rightarrow> handler \<Rightarrow> bool result" where
  "pure_check p a h = Inr (p a h, h)"

text \<open>
  \<open>self.state_chart[self.state]\<close>: the row of the current state, a cell being \<open>None\<close> or
  a bound method. There is no row for \<open>DEAD\<close>; \<open>action_handler\<close> returns before it
  reads the chart of a dead mob.
\<close>

fun state_chart :: "mob_state \<Rightarrow> (nat \<Rightarrow> handler \<Rightarrow> bool result) option list" where
  "state_chart HOLD =
     [None, Some (pure_check in_sight_and_healthy), Some in_sight_and_not_healthy]"
| "state_chart CHASE =
     [Some (pure_check not_in_sight), None, Some in_sight_and_not_healthy]"
| "state_chart RUN =
     [Some (pure_check not_in_sight), Some (pure_check in_sight_and_healthy), None]"
| "state_chart DEAD = []"

text \<open>
  \<open>self.state = x\<close> stores the column index; columns 0, 1, 2 are \<open>HOLD\<close>, \<open>CHASE\<close>,
  \<open>RUN\<close>, and a row has no other column.
\<close>

definition state_of_index :: "nat \<Rightarrow> mob_state" where
  "state_of_index x =
     (if x = 0 then HOLD else if x = 1 then CHASE else if x = 2 then RUN else undefined)"

definition set_state :: "nat \<Rightarrow> mob_state \<Rightarrow> handler \<Rightarrow> handler" where
  "set_state a st h = h\<lparr>mob_heap := (mob_heap h)(a := (mob_heap h a)\<lparr>state := st\<rparr>)\<rparr>"

text \<open>The messages that follow \<open>self.state = x\<close>.\<close>

definition state_msg :: "nat \<Rightarrow> handler \<Rightarrow> handler" where
  "state_msg a h =
     (if state (mob_heap h a) = CHASE
      then add_msg (name (mob_heap h a) @ '' sees you!'') ''mob_behaviour_text'' h
      else if state (mob_heap h a) = RUN
      then add_msg (name (mob_heap h a) @ '' runs away!'') ''mob_behaviour_text'' h
      else h)"

text \<open>
  The \<open>for\<close> loop of \<open>action_handler\<close> over the cells of the row, \<open>x\<close> counting the
  columns. Beside the handler it returns the columns \<open>x\<close> at which \<open>self.state = x\<close> was
  executed, in order: one entry for each check that returned true.
\<close>

fun check_loop ::
  "nat \<Rightarrow> (nat \<Rightarrow> handler \<Rightarrow> bool result) option list \<Rightarrow> nat \<Rightarrow> handler \<Rightarrow> nat list result" where
  "check_loop a [] x h = Inr ([], h)"
| "check_loop a (None # cs) x h = check_loop a cs (x + 1) h"
| "check_loop a (Some check # cs) x h =
     (case check a h of
        Inl e \<Rightarrow> Inl e
      | Inr (b, h1) \<Rightarrow>
          if b
          then (case check_loop a cs (x + 1) (state_msg a (set_state a (state_of_index x) h1)) of
                  Inl e \<Rightarrow> Inl e
                | Inr (xs, h2) \<Rightarrow> Inr (x # xs, h2))
          else check_loop a cs (x + 1) h1)"

subsection \<open>Mob.chase and Mob.run\<close>

text \<open>\<open>math.sqrt\<close> gives a float in the source; here it is the real square root.\<close>

definition linear_dist :: "int \<Rightarrow> int \<Rightarrow> int \<Rightarrow> int \<Rightarrow> real" where
  "linear_dist x1 x2 y1 y2 = sqrt (real_of_int ((x1 - x2)\<^sup>2 + (y1 - y2)\<^sup>2))"

definition possible_posn :: "(int \<times> int) list" where
  "possible_posn = [(1, 0), (- 1, 0), (0, 1), (0, - 1)]"

text \<open>The attack branch of the loop of \<open>chase\<close>: the mob at \<open>a\<close> hits the player.\<close>

definition attack_player :: "nat \<Rightarrow> handler \<Rightarrow> (error \<times> handler) + handler" where
  "attack_player a h =
     (case deal_damage (MobRef a) (HasHp PlayerRef) h of
        Inl e \<Rightarrow> Inl e
      | Inr (dmg, h1) \<Rightarrow>
          (let h2 = (case dmg of
                       None \<Rightarrow> add_msg (name (mob_heap h1 a) @ '' missed!'') ''mob_atk_text'' h1
                     | Some d \<Rightarrow>
                         if d \<noteq> 0
                         then add_msg (name (mob_heap h1 a) @ '' attacks you for '' @
                                       str_int d @ '' damage!'') ''mob_atk_text'' h1
                         else add_msg (name (mob_heap h1 a) @ '' missed!'') ''mob_atk_text'' h1)
           in Inr (if game_state h2 = GAME_DEAD
                   then add_msg (name (mob_heap h2 a) @ '' killed you!'') ''player_die_text'' h2
                   else h2)))"

text \<open>
  The loop of \<open>chase\<close> over the offsets, with the local variables \<open>min_dist_to_target\<close>
  and \<open>move_to_make\<close>; the target is read through its reference.
\<close>

fun chase_loop ::
  "(handler \<Rightarrow> int \<Rightarrow> int \<Rightarrow> bool) \<Rightarrow> nat \<Rightarrow> combat_ref \<Rightarrow> (int \<times> int) list \<Rightarrow>
   real \<Rightarrow> (int \<times> int) option \<Rightarrow> handler \<Rightarrow> (real \<times> (int \<times> int) option) result" where
  "chase_loop is_solid a t [] min_dist move_to_make h = Inr ((min_dist, move_to_make), h)"
| "chase_loop is_solid a t (posn # ps) min_dist move_to_make h =
     (if pos_x (mob_heap h a) + fst posn = pos_x (player h) \<and>
         pos_y (mob_heap h a) + snd posn = pos_y (player h) \<and>
         game_state h \<noteq> GAME_DEAD
      then (case attack_player a h of
              Inl e \<Rightarrow> Inl e
            | Inr h' \<Rightarrow> chase_loop is_solid a t ps min_dist move_to_make h')
      else if \<not> is_solid h (pos_x (mob_heap h a) + fst posn) (pos_y (mob_heap h a) + snd posn)
      then (let new_dist = linear_dist (pos_x (mob_heap h a) + fst posn) (x_of t h)
                             (pos_y (mob_heap h a) + snd posn) (y_of t h)
            in if new_dist < min_dist
               then chase_loop is_solid a t ps new_dist (Some posn) h
               else chase_loop is_solid a t ps min_dist move_to_make h)
      else chase_loop is_solid a t ps min_dist move_to_make h)"

definition chase ::
  "(handler \<Rightarrow> int \<Rightarrow> int \<Rightarrow> bool) \<Rightarrow> nat \<Rightarrow> combat_ref \<Rightarrow> handler \<Rightarrow> (error \<times> handler) + handler" where
  "chase is_solid a t h =
     (case chase_loop is_solid a t possible_posn
             (linear_dist (pos_x (mob_heap h a)) (x_of t h) (pos_y (mob_heap h a)) (y_of t h))
             None h of
        Inl e \<Rightarrow> Inl e
      | Inr ((d, move_to_make), h') \<Rightarrow>
          (case move_to_make of
             None \<Rightarrow> Inr h'
           | Some posn \<Rightarrow> Inr (move is_solid (MobRef a) (fst posn) (snd posn) h')))"

fun run_loop ::
  "(handler \<Rightarrow> int \<Rightarrow> int \<Rightarrow> bool) \<Rightarrow> nat \<Rightarrow> combat_ref \<Rightarrow> (int \<times> int) list \<Rightarrow>
   real \<Rightarrow> (int \<times> int) option \<Rightarrow> handler \<Rightarrow> real \<times> (int \<times> int) option" where
  "run_loop is_solid a t [] max_dist move_to_make h = (max_dist, move_to_make)"
| "run_loop is_solid a t (posn # ps) max_dist move_to_make h =
     (if \<not> is_solid h (pos_x (mob_heap h a) + fst posn) (pos_y (mob_heap h a) + snd posn)
      then (let new_dist = linear_dist (pos_x (mob_heap h a) + fst posn) (x_of t h)
                             (pos_y (mob_heap h a) + snd posn) (y_of t h)
            in if new_dist > max_dist
               then run_loop is_solid a t ps new_dist (Some posn) h
               else run_loop is_solid a t ps max_dist move_to_make h)
      else run_loop is_solid a t ps max_dist move_to_make h)"

definition run ::
  "(handler \<Rightarrow> int \<Rightarrow> int \<Rightarrow> bool) \<Rightarrow> nat \<Rightarrow> combat_ref \<Rightarrow> handler \<Rightarrow> handler" where
  "run is_solid a t h =
     (case snd (run_loop is_solid a t possible_posn
                  (linear_dist (pos_x (mob_heap h a)) (x_of t h) (pos_y (mob_heap h a)) (y_of t h))
                  None h) of
        None \<Rightarrow> h
      | Some posn \<Rightarrow> move is_solid (MobRef a) (fst posn) (snd posn) h)"

subsection \<open>Mob.action_handler\<close>

definition action_handler ::
  "(handler \<Rightarrow> int \<Rightarrow> int \<Rightarrow> bool) \<Rightarrow> nat \<Rightarrow> handler \<Rightarrow> (error \<times> handler) + handler" where
  "action_handler is_solid a h =
     (if state (mob_heap h a) = DEAD then Inr h
      else (case check_loop a (state_chart (state (mob_heap h a))) 0 h of
              Inl e \<Rightarrow> Inl e
            | Inr (xs, h1) \<Rightarrow>
                if state (mob_heap h1 a) = HOLD then Inr h1
                else if state (mob_heap h1 a) = CHASE then chase is_solid a PlayerRef h1
                else if state (mob_heap h1 a) = RUN then Inr (run is_solid a PlayerRef h1)
                else Inr h1))"

section \<open>Runs and example states\<close>

text \<open>
  A world of open floor: a tile is solid exactly when the player or a solid mob of the
  mob list stands on it. It is one possible \<open>world.is_solid\<close>, used in the examples.
\<close>

definition open_floor :: "handler \<Rightarrow> int \<Rightarrow> int \<Rightarrow> bool" where
  "open_floor h x y =
     ((pos_x (player h) = x \<and> pos_y (player h) = y \<and> solid (player h)) \<or>
      list_ex (\<lambda>a. pos_x (mob_heap h a) = x \<and> pos_y (mob_heap h a) = y \<and> solid (mob_heap h a))
        (map_mobs h))"

text \<open>
  A player at (5, 5), a spider east of the player and a skeleton far away; every raw
  random draw is 30.
\<close>

definition demo :: handler where
  "demo =
     \<lparr>player = Player 5 5 ''you'',
      mob_heap = (\<lambda>a. if a = 0 then Spider 6 5 else Skeleton 9 9),
      map_mobs = [0, 1], game_state = GAME_ALIVE, fov_refresh = False,
      fov_map = (\<lambda>x y. True), msg_log = [], rand_src = (\<lambda>n. 30), rand_pos = 0,
      die_calls = []\<rparr>"






text \<open>A sequence of \<open>take_damage\<close> calls on one entity; an exception ends it.\<close>

fun take_damages :: "combat_ref \<Rightarrow> int list \<Rightarrow> handler \<Rightarrow> (error \<times> handler) + handler" where
  "take_damages r [] h = Inr h"
| "take_damages r (d # ds) h =
     (case take_damage r d h of Inl e \<Rightarrow> Inl e | Inr h' \<Rightarrow> take_damages r ds h')"

definition hp_in_range :: "combat_ref \<Rightarrow> handler \<Rightarrow> bool" where
  "hp_in_range r h = (0 \<le> hp_of r h \<and> hp_of r h \<le> max_hp_of r h)"

text \<open>
  The example with the spider wounded to 5 hit points and every raw random draw 99.
\<close>

definition demo_wounded :: handler where
  "demo_wounded =
     demo\<lparr>mob_heap := (\<lambda>a. if a = 0 then (Spider 6 5)\<lparr>hp := 5\<rparr> else Skeleton 9 9),
          rand_src := (\<lambda>n. 99)\<rparr>"

text \<open>
  The example with the spider chasing from (8, 7), where it is out of sight: only the
  tiles west of column 8 are in the field of view.
\<close>

definition demo_chasing :: handler where
  "demo_chasing =
     demo\<lparr>mob_heap := (\<lambda>a. if a = 0 then (Spider 8 7)\<lparr>state := CHASE\<rparr> else Skeleton 9 9),
          fov_map := (\<lambda>x y. x < 8)\<rparr>"

text \<open>The example after both mobs have died, the spider first.\<close>

definition demo_dead :: handler where
  "demo_dead = after (take_damage (MobRef 1) 250 (after (take_damage (MobRef 0) 250 demo)))"

lemmas demo_simps = demo_def Player_def CombatEntity_def Spider_def Skeleton_def Mob_def
lemmas combat_simps = take_damage_def die_def Mob_die_def Player_die_def send_to_back_def
  hp_of_def max_hp_of_def atk_of_def set_hp_def Let_def

section \<open>Facts about damage and death\<close>

lemma hp_of_set_hp [simp]: "hp_of r (set_hp r v h) = v"
  by (cases r) (simp_all add: hp_of_def set_hp_def)

lemma max_hp_of_set_hp [simp]: "max_hp_of r (set_hp r v h) = max_hp_of r h"
  by (cases r) (simp_all add: max_hp_of_def set_hp_def)

lemma die_calls_set_hp [simp]: "die_calls (set_hp r v h) = die_calls h"
  by (cases r) (simp_all add: set_hp_def)

lemma after_simps [simp]: "after (Inl (e, h)) = h" "after (Inr h) = h"
  by (simp_all add: after_def)

lemma after_die:
  "hp_of r (after (die r h)) = hp_of r h"
  "max_hp_of r (after (die r h)) = max_hp_of r h"
  "die_calls (after (die r h)) = die_calls h @ [r]"
  by (cases r; simp add: die_def Let_def Player_die_def Mob_die_def send_to_back_def
        hp_of_def max_hp_of_def)+

lemma take_damage_lethal:
  "hp_of r h \<le> d \<Longrightarrow> take_damage r d h = die r (set_hp r 0 h)"
  by (simp add: take_damage_def)

lemma take_damage_survive:
  "d < hp_of r h \<Longrightarrow> take_damage r d h = Inr (set_hp r (hp_of r h - d) h)"
  by (simp add: take_damage_def)

lemma take_damage_range:
  "0 \<le> d \<Longrightarrow> hp_in_range r h \<Longrightarrow>
   hp_in_range r (after (take_damage r d h)) \<and>
   max_hp_of r (after (take_damage r d h)) = max_hp_of r h"
  by (cases "hp_of r h \<le> d")
     (simp_all add: take_damage_lethal take_damage_survive after_die hp_in_range_def)

lemma take_damages_range:
  "\<forall>d\<in>set ds. 0 \<le> d \<Longrightarrow> hp_in_range r h \<Longrightarrow>
   hp_in_range r (after (take_damages r ds h)) \<and>
   max_hp_of r (after (take_damages r ds h)) = max_hp_of r h"
proof (induction ds arbitrary: h)
  case Nil
  then show ?case by simp
next
  case (Cons d ds)
  from Cons.prems have d: "0 \<le> d" and ds: "\<forall>d\<in>set ds. 0 \<le> d" by simp_all
  note step = take_damage_range [OF d Cons.prems(2)]
  show ?case
  proof (cases "take_damage r d h")
    case (Inl e)
    with step show ?thesis by (cases e) simp
  next
    case (Inr h')
    with step have "hp_in_range r h'" and m: "max_hp_of r h' = max_hp_of r h" by simp_all
    from Cons.IH [OF ds this(1)] m Inr show ?thesis by simp
  qed
qed


lemma filter_remove1_other: "filter (\<lambda>b. b \<noteq> a) (remove1 a xs) = filter (\<lambda>b. b \<noteq> a) xs"
  by (induction xs) auto

lemma Mob_die_in_list:
  "a \<in> set (map_mobs h) \<Longrightarrow>
   Mob_die a h =
     Inr (h\<lparr>mob_heap := (mob_heap h)
              (a := (mob_heap h a)\<lparr>char := ''X'', solid := False, state := DEAD\<rparr>),
            map_mobs := a # remove1 a (map_mobs h)\<rparr>)"
  by (simp add: Mob_die_def send_to_back_def)

lemma take_damage_mob_lethal:
  "a \<in> set (map_mobs h) \<Longrightarrow> hp (mob_heap h a) \<le> d \<Longrightarrow>
   take_damage (MobRef a) d h =
     Inr (h\<lparr>mob_heap := (mob_heap h)
              (a := (mob_heap h a)\<lparr>hp := 0, char := ''X'', solid := False, state := DEAD\<rparr>),
            die_calls := die_calls h @ [MobRef a],
            map_mobs := a # remove1 a (map_mobs h)\<rparr>)"
  by (simp add: take_damage_def hp_of_def set_hp_def die_def Mob_die_def send_to_back_def)

section \<open>CombatEntity.take_damage\<close>

text \<open>
  C3. An entity (player or mob) created with \<open>hp = max_hp\<close>, that value not negative,
  and subjected to any sequence of \<open>take_damage\<close> calls with non-negative amounts has
  \<open>0 \<le> hp \<le> max_hp\<close> after the sequence (so after every prefix of it), also when a
  call ends by an exception. A single \<open>take_damage(d)\<close> with \<open>d \<ge> hp\<close> leaves
  \<open>hp = 0\<close> and invokes \<open>die\<close> exactly once; with \<open>d < hp\<close> it returns with \<open>hp\<close>
  decreased by \<open>d\<close> and invokes no \<open>die\<close>.
\<close>

theorem take_damage_hp_invariant:
  "((\<forall>d\<in>set ds. 0 \<le> d) \<and> hp_of r h = max_hp_of r h \<and> 0 \<le> max_hp_of r h \<longrightarrow>
      0 \<le> hp_of r (after (take_damages r ds h)) \<and>
      hp_of r (after (take_damages r ds h)) \<le> max_hp_of r (after (take_damages r ds h))) \<and>
   (hp_of r h \<le> d \<longrightarrow>
      hp_of r (after (take_damage r d h)) = 0 \<and>
      die_calls (after (take_damage r d h)) = die_calls h @ [r]) \<and>
   (d' < hp_of r h \<longrightarrow>
      take_damage r d' h = Inr (set_hp r (hp_of r h - d') h) \<and>
      hp_of r (after (take_damage r d' h)) = hp_of r h - d' \<and>
      die_calls (after (take_damage r d' h)) = die_calls h)"
proof (intro conjI impI)
  assume a: "(\<forall>d\<in>set ds. 0 \<le> d) \<and> hp_of r h = max_hp_of r h \<and> 0 \<le> max_hp_of r h"
  then have "hp_in_range r h" by (simp add: hp_in_range_def)
  with a have "hp_in_range r (after (take_damages r ds h))"
    using take_damages_range [of ds r h] by blast
  then show "0 \<le> hp_of r (after (take_damages r ds h))"
    and "hp_of r (after (take_damages r ds h)) \<le> max_hp_of r (after (take_damages r ds h))"
    by (simp_all add: hp_in_range_def)
next
  assume "hp_of r h \<le> d"
  then show "hp_of r (after (take_damage r d h)) = 0"
    and "die_calls (after (take_damage r d h)) = die_calls h @ [r]"
    by (simp_all add: take_damage_lethal after_die)
next
  assume "d' < hp_of r h"
  then show "take_damage r d' h = Inr (set_hp r (hp_of r h - d') h)"
    and "hp_of r (after (take_damage r d' h)) = hp_of r h - d'"
    and "die_calls (after (take_damage r d' h)) = die_calls h"
    by (simp_all add: take_damage_survive)
qed

theorem take_damage_hp_invariant_witness:
  "hp_of (MobRef 0) demo = 200 \<and> max_hp_of (MobRef 0) demo = 200 \<and>
   hp_of (MobRef 0) (after (take_damages (MobRef 0) [50, 30, 200] demo)) = 0 \<and>
   max_hp_of (MobRef 0) (after (take_damages (MobRef 0) [50, 30, 200] demo)) = 200 \<and>
   hp_of (MobRef 0) (after (take_damage (MobRef 0) 250 demo)) = 0 \<and>
   die_calls (after (take_damage (MobRef 0) 250 demo)) = [MobRef 0] \<and>
   hp_of (MobRef 0) (after (take_damage (MobRef 0) 50 demo)) = 150 \<and>
   die_calls (after (take_damage (MobRef 0) 50 demo)) = []"
  using take_damage_hp_invariant [of "[50, 30, 200]" "MobRef 0" demo 250 50]
  by (simp add: demo_simps combat_simps)

text \<open>
  C2 (as amended). \<open>take_damage(amount)\<close> with \<open>amount \<ge> 0\<close> on an entity that is
  already dead (\<open>hp = 0\<close>) leaves \<open>hp\<close> at 0, never negative, and invokes \<open>die\<close> again,
  once in that call: \<open>take_damage\<close> has no test for an entity that is dead already.
\<close>

theorem take_damage_on_dead:
  "0 \<le> d \<Longrightarrow> hp_of r h = 0 \<Longrightarrow>
   hp_of r (after (take_damage r d h)) = 0 \<and>
   die_calls (after (take_damage r d h)) = die_calls h @ [r]"
  by (simp add: take_damage_lethal after_die)

theorem take_damage_on_dead_witness:
  "hp_of (MobRef 0) demo_dead = 0 \<and>
   hp_of (MobRef 0) (after (take_damage (MobRef 0) 7 demo_dead)) = 0 \<and>
   die_calls (after (take_damage (MobRef 0) 7 demo_dead)) = die_calls demo_dead @ [MobRef 0]"
proof -
  have z: "hp_of (MobRef 0) demo_dead = 0"
    by (simp add: demo_dead_def demo_simps combat_simps)
  from take_damage_on_dead [of 7 "MobRef 0" demo_dead] z show ?thesis by simp
qed

text \<open>
  C2 as stated fails. In the example both mobs have died, the spider (address 0) first,
  so the mob list is \<open>[1, 0]\<close>. A further \<open>take_damage(0)\<close> on the dead spider invokes
  its \<open>die\<close> a second time, which moves it to the front of the mob list again.
\<close>

theorem take_damage_on_dead_reinvokes_die:
  "hp_of (MobRef 0) demo_dead = 0 \<and> state (mob_heap demo_dead 0) = DEAD \<and>
   die_calls demo_dead = [MobRef 0, MobRef 1] \<and> map_mobs demo_dead = [1, 0] \<and>
   die_calls (after (take_damage (MobRef 0) 0 demo_dead)) = [MobRef 0, MobRef 1, MobRef 0] \<and>
   die_calls (after (take_damage (MobRef 0) 0 demo_dead)) \<noteq> die_calls demo_dead \<and>
   map_mobs (after (take_damage (MobRef 0) 0 demo_dead)) = [0, 1]"
  by (simp add: demo_dead_def demo_simps combat_simps)

section \<open>CombatEntity.deal_damage\<close>



section \<open>Mob.die\<close>

text \<open>
  C8. For a mob of the mob list, \<open>Mob.die()\<close> returns, sets the glyph to the death
  marker \<open>X\<close>, \<open>solid\<close> to false and the state to \<open>DEAD\<close>, and moves the mob to
  index 0 of the mob list, the other mobs keeping their relative order. A spider
  (\<open>hp = 200\<close>, \<open>atk = 15\<close>, \<open>morale = 50\<close>) in a mob list of at least two mobs that
  takes 250 damage in one call ends with \<open>hp = 0\<close>, state \<open>DEAD\<close>, the glyph changed
  from \<open>s\<close> to \<open>X\<close>, \<open>solid\<close> false, and at index 0 of the list, which keeps its size.
\<close>

theorem Mob_die_spec:
  "a \<in> set (map_mobs h) \<Longrightarrow>
   returns (Mob_die a h) \<and>
   char (mob_heap (after (Mob_die a h)) a) = ''X'' \<and>
   \<not> solid (mob_heap (after (Mob_die a h)) a) \<and>
   state (mob_heap (after (Mob_die a h)) a) = DEAD \<and>
   map_mobs (after (Mob_die a h)) ! 0 = a \<and>
   map_mobs (after (Mob_die a h)) = a # remove1 a (map_mobs h) \<and>
   filter (\<lambda>b. b \<noteq> a) (map_mobs (after (Mob_die a h))) = filter (\<lambda>b. b \<noteq> a) (map_mobs h) \<and>
   length (map_mobs (after (Mob_die a h))) = length (map_mobs h) \<and>
   (mob_heap h a = Spider x y \<and> 2 \<le> length (map_mobs h) \<longrightarrow>
      returns (take_damage (MobRef a) 250 h) \<and>
      hp (mob_heap (after (take_damage (MobRef a) 250 h)) a) = 0 \<and>
      state (mob_heap (after (take_damage (MobRef a) 250 h)) a) = DEAD \<and>
      char (mob_heap (after (take_damage (MobRef a) 250 h)) a) = ''X'' \<and>
      char (mob_heap (after (take_damage (MobRef a) 250 h)) a) \<noteq> char (mob_heap h a) \<and>
      \<not> solid (mob_heap (after (take_damage (MobRef a) 250 h)) a) \<and>
      map_mobs (after (take_damage (MobRef a) 250 h)) ! 0 = a \<and>
      2 \<le> length (map_mobs (after (take_damage (MobRef a) 250 h))))"
proof -
  assume mem: "a \<in> set (map_mobs h)"
  then have pos: "0 < length (map_mobs h)"
    by (rule length_pos_if_in_set)
  have len: "length (a # remove1 a (map_mobs h)) = length (map_mobs h)"
    using mem pos by (simp add: length_remove1)
  have die: "returns (Mob_die a h) \<and>
   char (mob_heap (after (Mob_die a h)) a) = ''X'' \<and>
   \<not> solid (mob_heap (after (Mob_die a h)) a) \<and>
   state (mob_heap (after (Mob_die a h)) a) = DEAD \<and>
   map_mobs (after (Mob_die a h)) ! 0 = a \<and>
   map_mobs (after (Mob_die a h)) = a # remove1 a (map_mobs h) \<and>
   filter (\<lambda>b. b \<noteq> a) (map_mobs (after (Mob_die a h))) = filter (\<lambda>b. b \<noteq> a) (map_mobs h) \<and>
   length (map_mobs (after (Mob_die a h))) = length (map_mobs h)"
    using len by (simp add: Mob_die_in_list [OF mem] returns_def filter_remove1_other)
  have spider: "returns (take_damage (MobRef a) 250 h) \<and>
      hp (mob_heap (after (take_damage (MobRef a) 250 h)) a) = 0 \<and>
      state (mob_heap (after (take_damage (MobRef a) 250 h)) a) = DEAD \<and>
      char (mob_heap (after (take_damage (MobRef a) 250 h)) a) = ''X'' \<and>
      char (mob_heap (after (take_damage (MobRef a) 250 h)) a) \<noteq> char (mob_heap h a) \<and>
      \<not> solid (mob_heap (after (take_damage (MobRef a) 250 h)) a) \<and>
      map_mobs (after (take_damage (MobRef a) 250 h)) ! 0 = a \<and>
      2 \<le> length (map_mobs (after (take_damage (MobRef a) 250 h)))"
    if sp: "mob_heap h a = Spider x y" and two: "2 \<le> length (map_mobs h)"
  proof -
    from sp have "hp (mob_heap h a) \<le> 250"
      by (simp add: Spider_def Mob_def)
    from take_damage_mob_lethal [OF mem this] sp two len show ?thesis
      by (simp add: returns_def Spider_def Mob_def)
  qed
  from die spider show ?thesis by blast
qed

theorem Mob_die_spec_witness:
  "0 \<in> set (map_mobs demo_dead) \<and> mob_heap demo 0 = Spider 6 5 \<and>
   map_mobs demo = [0, 1] \<and> map_mobs demo_dead = [1, 0] \<and>
   returns (Mob_die 0 demo_dead) \<and>
   map_mobs (after (Mob_die 0 demo_dead)) = [0, 1] \<and>
   returns (take_damage (MobRef 0) 250 demo) \<and>
   hp (mob_heap (after (take_damage (MobRef 0) 250 demo)) 0) = 0 \<and>
   state (mob_heap (after (take_damage (MobRef 0) 250 demo)) 0) = DEAD \<and>
   char (mob_heap (after (take_damage (MobRef 0) 250 demo)) 0) = ''X'' \<and>
   \<not> solid (mob_heap (after (take_damage (MobRef 0) 250 demo)) 0) \<and>
   map_mobs (after (take_damage (MobRef 0) 250 demo)) = [0, 1] \<and>
   map_mobs (after (take_damage (MobRef 1) 250 demo)) = [1, 0]"
  using Mob_die_spec [of 0 demo_dead 6 5] Mob_die_spec [of 0 demo 6 5]
    Mob_die_spec [of 1 demo 6 5]
  by (simp add: demo_dead_def demo_simps combat_simps returns_def)

section \<open>A dead mob\<close>

text \<open>
  C4. \<open>action_handler\<close> returns at once on a mob whose state is \<open>DEAD\<close>, changing
  nothing. \<open>take_damage\<close> with a non-negative amount on a \<open>DEAD\<close> mob with 0 hit
  points leaves its position, its \<open>hp = 0\<close> and its state \<open>DEAD\<close>; and when the mob
  is in the mob list, as every mob that died through \<open>die\<close> is, the call returns without
  an exception and the mob is still in the list, so the same holds for every further call.
\<close>

theorem dead_mob_inert:
  "(state (mob_heap h a) = DEAD \<longrightarrow> action_handler is_solid a h = Inr h) \<and>
   (state (mob_heap h a) = DEAD \<and> hp (mob_heap h a) = 0 \<and> 0 \<le> d \<longrightarrow>
      pos_x (mob_heap (after (take_damage (MobRef a) d h)) a) = pos_x (mob_heap h a) \<and>
      pos_y (mob_heap (after (take_damage (MobRef a) d h)) a) = pos_y (mob_heap h a) \<and>
      hp (mob_heap (after (take_damage (MobRef a) d h)) a) = 0 \<and>
      state (mob_heap (after (take_damage (MobRef a) d h)) a) = DEAD) \<and>
   (state (mob_heap h a) = DEAD \<and> hp (mob_heap h a) = 0 \<and> 0 \<le> d \<and>
    a \<in> set (map_mobs h) \<longrightarrow>
      returns (take_damage (MobRef a) d h) \<and>
      a \<in> set (map_mobs (after (take_damage (MobRef a) d h))))"
proof (intro conjI impI)
  assume "state (mob_heap h a) = DEAD"
  then show "action_handler is_solid a h = Inr h"
    by (simp add: action_handler_def)
next
  assume a: "state (mob_heap h a) = DEAD \<and> hp (mob_heap h a) = 0 \<and> 0 \<le> d"
  then have td: "take_damage (MobRef a) d h =
      Mob_die a (set_hp (MobRef a) 0 h\<lparr>die_calls := die_calls h @ [MobRef a]\<rparr>)"
    by (simp add: take_damage_def hp_of_def die_def)
  show "pos_x (mob_heap (after (take_damage (MobRef a) d h)) a) = pos_x (mob_heap h a)"
    and "pos_y (mob_heap (after (take_damage (MobRef a) d h)) a) = pos_y (mob_heap h a)"
    and "hp (mob_heap (after (take_damage (MobRef a) d h)) a) = 0"
    and "state (mob_heap (after (take_damage (MobRef a) d h)) a) = DEAD"
    by (simp_all add: td Mob_die_def send_to_back_def set_hp_def)
next
  assume a: "state (mob_heap h a) = DEAD \<and> hp (mob_heap h a) = 0 \<and> 0 \<le> d \<and>
    a \<in> set (map_mobs h)"
  then have "hp (mob_heap h a) \<le> d" by simp
  with a have td: "take_damage (MobRef a) d h =
     Inr (h\<lparr>mob_heap := (mob_heap h)
              (a := (mob_heap h a)\<lparr>hp := 0, char := ''X'', solid := False, state := DEAD\<rparr>),
            die_calls := die_calls h @ [MobRef a],
            map_mobs := a # remove1 a (map_mobs h)\<rparr>)"
    by (simp add: take_damage_mob_lethal)
  show "returns (take_damage (MobRef a) d h)"
    and "a \<in> set (map_mobs (after (take_damage (MobRef a) d h)))"
    by (simp_all add: td returns_def)
qed

theorem dead_mob_inert_witness:
  "state (mob_heap demo_dead 0) = DEAD \<and> hp (mob_heap demo_dead 0) = 0 \<and>
   0 \<in> set (map_mobs demo_dead) \<and> pos_x (mob_heap demo_dead 0) = 6 \<and>
   pos_y (mob_heap demo_dead 0) = 5 \<and>
   action_handler open_floor 0 demo_dead = Inr demo_dead \<and>
   returns (take_damage (MobRef 0) 12 demo_dead) \<and>
   pos_x (mob_heap (after (take_damage (MobRef 0) 12 demo_dead)) 0) = 6 \<and>
   pos_y (mob_heap (after (take_damage (MobRef 0) 12 demo_dead)) 0) = 5 \<and>
   hp (mob_heap (after (take_damage (MobRef 0) 12 demo_dead)) 0) = 0 \<and>
   state (mob_heap (after (take_damage (MobRef 0) 12 demo_dead)) 0) = DEAD"
proof -
  have pre: "state (mob_heap demo_dead 0) = DEAD \<and> hp (mob_heap demo_dead 0) = 0 \<and>
      0 \<in> set (map_mobs demo_dead) \<and> pos_x (mob_heap demo_dead 0) = 6 \<and>
      pos_y (mob_heap demo_dead 0) = 5"
    by (simp add: demo_dead_def demo_simps combat_simps)
  from dead_mob_inert [of demo_dead 0 open_floor 12] pre show ?thesis
    by simp
qed

section \<open>Facts about the state machine\<close>

lemma after_val_simps [simp]: "after_val (Inl (e, h)) = h" "after_val (Inr (v, h)) = h"
  by (simp_all add: after_val_def)

lemma attack_player_mob_heap: "mob_heap (after (attack_player a h)) = mob_heap h"
  by (simp add: attack_player_def deal_damage_def randrange_def take_damage_def die_def
      Player_die_def set_hp_def hp_of_def add_msg_def Let_def
      split: option.splits)

lemma chase_loop_mob_heap:
  "mob_heap (after_val (chase_loop is_solid a t ps d mv h)) = mob_heap h"
proof (induction ps arbitrary: d mv h)
  case Nil
  show ?case by simp
next
  case (Cons p ps)
  show ?case
  proof (cases "attack_player a h")
    case (Inl e)
    with attack_player_mob_heap [of a h] show ?thesis
      by (cases e) (simp add: Cons.IH Let_def)
  next
    case (Inr h')
    with attack_player_mob_heap [of a h] have "mob_heap h' = mob_heap h" by simp
    with Inr show ?thesis
      by (simp add: Cons.IH Let_def)
  qed
qed

lemma chase_state: "state (mob_heap (after (chase is_solid a t h)) a) = state (mob_heap h a)"
proof -
  define r where "r = chase_loop is_solid a t possible_posn
             (linear_dist (pos_x (mob_heap h a)) (x_of t h) (pos_y (mob_heap h a)) (y_of t h))
             None h"
  have mh: "mob_heap (after_val r) = mob_heap h"
    unfolding r_def by (rule chase_loop_mob_heap)
  have c: "chase is_solid a t h =
     (case r of
        Inl e \<Rightarrow> Inl e
      | Inr ((d, move_to_make), h') \<Rightarrow>
          (case move_to_make of
             None \<Rightarrow> Inr h'
           | Some posn \<Rightarrow> Inr (move is_solid (MobRef a) (fst posn) (snd posn) h')))"
    by (simp add: chase_def r_def)
  show ?thesis
  proof (cases r)
    case (Inl e)
    with mh show ?thesis by (cases e) (simp add: c)
  next
    case (Inr v)
    with mh show ?thesis
      by (cases v) (auto simp: c move_def set_pos_def split: option.splits prod.splits)
  qed
qed

lemmas check_simps = pure_check_def in_sight_and_not_healthy_def in_sight_and_healthy_def
  not_in_sight_def in_sight_def healthy_def randrange_def state_msg_def set_state_def
  state_of_index_def add_msg_def

lemma check_loop_HOLD:
  "state (mob_heap h a) = HOLD \<Longrightarrow>
   \<exists>xs h'. check_loop a (state_chart HOLD) 0 h = Inr (xs, h') \<and> length xs \<le> 1 \<and>
     length (msg_log h') \<le> length (msg_log h) + length xs \<and> (\<forall>x\<in>set xs. x < 3) \<and>
     state (mob_heap h' a) = (case xs of [] \<Rightarrow> HOLD | x # ys \<Rightarrow> state_of_index x) \<and>
     (in_sight a h \<and> healthy a h \<longrightarrow> xs = [1])"
  by (simp add: check_simps)

lemma check_loop_CHASE:
  "state (mob_heap h a) = CHASE \<Longrightarrow>
   \<exists>xs h'. check_loop a (state_chart CHASE) 0 h = Inr (xs, h') \<and> length xs \<le> 1 \<and>
     length (msg_log h') \<le> length (msg_log h) + length xs \<and> (\<forall>x\<in>set xs. x < 3) \<and>
     state (mob_heap h' a) = (case xs of [] \<Rightarrow> CHASE | x # ys \<Rightarrow> state_of_index x) \<and>
     (not_in_sight a h \<longrightarrow> xs = [0])"
  by (simp add: check_simps)

lemma check_loop_RUN:
  "state (mob_heap h a) = RUN \<Longrightarrow>
   \<exists>xs h'. check_loop a (state_chart RUN) 0 h = Inr (xs, h') \<and> length xs \<le> 1 \<and>
     length (msg_log h') \<le> length (msg_log h) + length xs \<and> (\<forall>x\<in>set xs. x < 3) \<and>
     state (mob_heap h' a) = (case xs of [] \<Rightarrow> RUN | x # ys \<Rightarrow> state_of_index x)"
  by (simp add: check_simps)


section \<open>Mob.chase and Mob.run\<close>













lemma linear_dist_less [simp]:
  "linear_dist x1 x2 y1 y2 < linear_dist u1 u2 v1 v2 \<longleftrightarrow>
   (x1 - x2)\<^sup>2 + (y1 - y2)\<^sup>2 < (u1 - u2)\<^sup>2 + (v1 - v2)\<^sup>2"
  unfolding linear_dist_def real_sqrt_less_iff of_int_less_iff ..




section \<open>Mob.action_handler\<close>

text \<open>
  C7. An \<open>action_handler\<close> call on a mob in state \<open>HOLD\<close> with \<open>in_sight()\<close> and
  \<open>healthy()\<close> true leaves the mob in state \<open>CHASE\<close>, whether the call returns or the
  attack made while chasing raises; a call on a mob in state \<open>CHASE\<close> with
  \<open>not_in_sight()\<close> true returns with the mob in state \<open>HOLD\<close>.
\<close>

theorem action_handler_transitions:
  "(state (mob_heap h a) = HOLD \<and> in_sight a h \<and> healthy a h \<longrightarrow>
      state (mob_heap (after (action_handler is_solid a h)) a) = CHASE) \<and>
   (state (mob_heap h a) = CHASE \<and> not_in_sight a h \<longrightarrow>
      action_handler is_solid a h = Inr (set_state a HOLD h\<lparr>rand_pos := rand_pos h + 1\<rparr>) \<and>
      state (mob_heap (after (action_handler is_solid a h)) a) = HOLD)"
proof (intro conjI impI)
  assume a: "state (mob_heap h a) = HOLD \<and> in_sight a h \<and> healthy a h"
  with check_loop_HOLD [of h a] obtain h1 where
    c: "check_loop a (state_chart HOLD) 0 h = Inr ([1], h1)" and
    s: "state (mob_heap h1 a) = CHASE"
    by (auto simp: state_of_index_def)
  from a c s have "action_handler is_solid a h = chase is_solid a PlayerRef h1"
    by (simp add: action_handler_def)
  with s show "state (mob_heap (after (action_handler is_solid a h)) a) = CHASE"
    by (simp add: chase_state)
next
  assume a: "state (mob_heap h a) = CHASE \<and> not_in_sight a h"
  then show "action_handler is_solid a h = Inr (set_state a HOLD h\<lparr>rand_pos := rand_pos h + 1\<rparr>)"
    by (simp add: action_handler_def check_simps)
  then show "state (mob_heap (after (action_handler is_solid a h)) a) = HOLD"
    by (simp add: set_state_def)
qed

theorem action_handler_transitions_witness:
  "state (mob_heap demo 0) = HOLD \<and> in_sight 0 demo \<and> healthy 0 demo \<and>
   state (mob_heap (after (action_handler open_floor 0 demo)) 0) = CHASE \<and>
   state (mob_heap demo_chasing 0) = CHASE \<and> not_in_sight 0 demo_chasing \<and>
   state (mob_heap (after (action_handler open_floor 0 demo_chasing)) 0) = HOLD"
proof -
  have pre: "state (mob_heap demo 0) = HOLD \<and> in_sight 0 demo \<and> healthy 0 demo \<and>
      state (mob_heap demo_chasing 0) = CHASE \<and> not_in_sight 0 demo_chasing"
    by (simp add: demo_chasing_def demo_simps check_simps)
  from action_handler_transitions [of demo 0 open_floor]
    action_handler_transitions [of demo_chasing 0 open_floor] pre
  show ?thesis by (simp add: set_state_def)
qed

text \<open>
  C10. The two checks of a row of the state chart exclude each other on the same
  visibility, hit points and morale roll: \<open>in_sight_and_healthy\<close> and \<open>not_in_sight\<close>
  are never both true, and when \<open>in_sight_and_not_healthy\<close> returns true neither of the
  two others is true. So the loop of \<open>action_handler\<close> over the row of a mob that is not
  dead, which calls every check of the row, returns with at most one check true: the state
  is assigned at most once, to the column of that check, and at most one message is
  emitted.
\<close>

theorem state_chart_exclusive:
  "\<not> (in_sight_and_healthy a h \<and> not_in_sight a h) \<and>
   (in_sight_and_not_healthy a h = Inr (True, h') \<longrightarrow>
      \<not> in_sight_and_healthy a h \<and> \<not> not_in_sight a h) \<and>
   (state (mob_heap h a) \<noteq> DEAD \<longrightarrow>
      (\<exists>xs h1. check_loop a (state_chart (state (mob_heap h a))) 0 h = Inr (xs, h1) \<and>
         length xs \<le> 1 \<and>
         length (msg_log h1) \<le> length (msg_log h) + length xs \<and>
         state (mob_heap h1 a) =
           (case xs of [] \<Rightarrow> state (mob_heap h a) | x # ys \<Rightarrow> state_of_index x)))"
proof (intro conjI impI)
  show "\<not> (in_sight_and_healthy a h \<and> not_in_sight a h)"
    by (simp add: in_sight_and_healthy_def not_in_sight_def)
next
  assume "in_sight_and_not_healthy a h = Inr (True, h')"
  then show "\<not> in_sight_and_healthy a h" and "\<not> not_in_sight a h"
    by (auto simp: check_simps split: if_splits)
next
  assume "state (mob_heap h a) \<noteq> DEAD"
  then consider "state (mob_heap h a) = HOLD" | "state (mob_heap h a) = CHASE"
    | "state (mob_heap h a) = RUN"
    by (cases "state (mob_heap h a)") simp_all
  then show "\<exists>xs h1. check_loop a (state_chart (state (mob_heap h a))) 0 h = Inr (xs, h1) \<and>
         length xs \<le> 1 \<and>
         length (msg_log h1) \<le> length (msg_log h) + length xs \<and>
         state (mob_heap h1 a) =
           (case xs of [] \<Rightarrow> state (mob_heap h a) | x # ys \<Rightarrow> state_of_index x)"
  proof cases
    case 1
    from check_loop_HOLD [OF 1] 1 show ?thesis by metis
  next
    case 2
    from check_loop_CHASE [OF 2] 2 show ?thesis by metis
  next
    case 3
    from check_loop_RUN [OF 3] 3 show ?thesis by metis
  qed
qed

theorem state_chart_exclusive_witness:
  "in_sight_and_not_healthy 0 demo_wounded = Inr (True, demo_wounded\<lparr>rand_pos := 1\<rparr>) \<and>
   \<not> in_sight_and_healthy 0 demo_wounded \<and> \<not> not_in_sight 0 demo_wounded \<and>
   state (mob_heap demo_wounded 0) \<noteq> DEAD \<and>
   value_of (check_loop 0 (state_chart (state (mob_heap demo_wounded 0))) 0 demo_wounded) =
     Some [2] \<and>
   msg_log (after_val
     (check_loop 0 (state_chart (state (mob_heap demo_wounded 0))) 0 demo_wounded)) =
     [(''Spider runs away!'', ''mob_behaviour_text'')] \<and>
   state (mob_heap (after_val
     (check_loop 0 (state_chart (state (mob_heap demo_wounded 0))) 0 demo_wounded)) 0) = RUN"
  using state_chart_exclusive [of 0 demo_wounded "demo_wounded\<lparr>rand_pos := 1\<rparr>"]
  by (simp add: demo_wounded_def demo_simps check_simps value_of_def)

section \<open>Player.move_or_attack\<close>

lemmas moa_simps = move_or_attack_def mobs_loop.simps attack_mob_def deal_damage_def
  randrange_def add_msg_def move_def x_of_def y_of_def set_pos_def open_floor_def
  str_int_def str_nat.simps

text \<open>
  C1. The player stands at (5, 5) and a solid spider with 5 hit points at (6, 5), in the
  world of open floor; the player's damage draw is 6. \<open>move_or_attack(1, 0)\<close> returns
  after it has attacked and killed the spider, and then, in the same call, has requested
  the recomputation of the field of view and moved the player onto (6, 5), the tile of
  the spider: the \<open>else\<close> clause of the loop runs although a mob was found. With the
  spider at 200 hit points the attack does not kill it; the request for recomputation is
  made all the same and \<open>move\<close> is called, the solid spider blocking it in the world of
  open floor, and not in a world whose \<open>is_solid\<close> looks at tiles only.
\<close>

theorem move_or_attack_attacks_and_moves:
  "pos_x (player demo_wounded) = 5 \<and> pos_y (player demo_wounded) = 5 \<and>
   pos_x (mob_heap demo_wounded 0) = 6 \<and> pos_y (mob_heap demo_wounded 0) = 5 \<and>
   solid (mob_heap demo_wounded 0) \<and> \<not> fov_refresh demo_wounded \<and>
   returns (move_or_attack open_floor 1 0 demo_wounded) \<and>
   msg_log (after (move_or_attack open_floor 1 0 demo_wounded)) =
     [(''You attack Spider for 6 damage!'', ''player_atk_text''),
      (''You killed Spider!'', ''player_kill_text'')] \<and>
   state (mob_heap (after (move_or_attack open_floor 1 0 demo_wounded)) 0) = DEAD \<and>
   pos_x (player (after (move_or_attack open_floor 1 0 demo_wounded))) = 6 \<and>
   pos_y (player (after (move_or_attack open_floor 1 0 demo_wounded))) = 5 \<and>
   fov_refresh (after (move_or_attack open_floor 1 0 demo_wounded)) \<and>
   msg_log (after (move_or_attack open_floor 1 0 demo)) =
     [(''You attack Spider for 30 damage!'', ''player_atk_text'')] \<and>
   pos_x (player (after (move_or_attack open_floor 1 0 demo))) = 5 \<and>
   fov_refresh (after (move_or_attack open_floor 1 0 demo)) \<and>
   pos_x (player (after (move_or_attack (\<lambda>h x y. False) 1 0 demo))) = 6"
  by (simp add: demo_wounded_def demo_simps combat_simps moa_simps returns_def)

section \<open>Player.die\<close>

text \<open>
  C9. \<open>Player.die()\<close> is idempotent. A call made while the game-state flag is not dead
  sets the flag to dead and the player's glyph to the death marker \<open>%\<close>, and changes
  nothing else; a call made while the flag is dead changes nothing at all, so a second
  call after any first call is without effect.
\<close>

theorem Player_die_idempotent:
  "(game_state h \<noteq> GAME_DEAD \<longrightarrow>
      game_state (Player_die h) = GAME_DEAD \<and> char (player (Player_die h)) = ''%'' \<and>
      Player_die h = h\<lparr>game_state := GAME_DEAD, player := (player h)\<lparr>char := ''%''\<rparr>\<rparr>) \<and>
   (game_state h = GAME_DEAD \<longrightarrow> Player_die h = h) \<and>
   Player_die (Player_die h) = Player_die h"
  by (simp add: Player_die_def)

theorem Player_die_idempotent_witness:
  "game_state demo \<noteq> GAME_DEAD \<and>
   game_state (Player_die demo) = GAME_DEAD \<and> char (player (Player_die demo)) = ''%'' \<and>
   Player_die (Player_die demo) = Player_die demo \<and>
   game_state (Player_die demo) = GAME_DEAD \<and>
   hp (player (Player_die (Player_die demo))) = 300"
  using Player_die_idempotent [of demo] Player_die_idempotent [of "Player_die demo"]
  by (simp add: demo_simps Player_die_def)

end
